theory Spec2Isabelle
  imports Main "HOL-Library.Multiset"
begin

section \<open>Severity levels\<close>

text \<open>
  \<^verbatim>\<open>ImpactLevel\<close> of \<^verbatim>\<open>sc_environment_impact_check.py\<close>: an \<^verbatim>\<open>Enum\<close> with string
  values, ordered by \<^verbatim>\<open>__lt__\<close> through the position in a fixed list, with equality
  on the values. The class is decorated with \<^verbatim>\<open>functools.total_ordering\<close>, which
  derives \<^verbatim>\<open>__gt__\<close>, \<^verbatim>\<open>__le__\<close> and \<^verbatim>\<open>__ge__\<close> from \<^verbatim>\<open>__lt__\<close> and \<^verbatim>\<open>__eq__\<close>.
\<close>

datatype ImpactLevel = NONE | LOW | MEDIUM | HIGH | CRITICAL

datatype error = ValueError string | KeyError string | URLError string

fun level_value :: "ImpactLevel \<Rightarrow> string" where
  "level_value NONE = ''none''"
| "level_value LOW = ''low''"
| "level_value MEDIUM = ''medium''"
| "level_value HIGH = ''high''"
| "level_value CRITICAL = ''critical''"

text \<open>\<^verbatim>\<open>ImpactLevel(s)\<close>: the member with value \<^verbatim>\<open>s\<close>, or \<^verbatim>\<open>ValueError\<close>.\<close>

definition ImpactLevel_of :: "string \<Rightarrow> error + ImpactLevel" where
  "ImpactLevel_of s =
     (if s = ''none'' then Inr NONE
      else if s = ''low'' then Inr LOW
      else if s = ''medium'' then Inr MEDIUM
      else if s = ''high'' then Inr HIGH
      else if s = ''critical'' then Inr CRITICAL
      else Inl (ValueError s))"

text \<open>\<^verbatim>\<open>__eq__\<close>: both are levels, so the values are compared.\<close>

definition level_eq :: "ImpactLevel \<Rightarrow> ImpactLevel \<Rightarrow> bool" where
  "level_eq a b = (level_value a = level_value b)"

text \<open>The list \<^verbatim>\<open>order\<close> of \<^verbatim>\<open>__lt__\<close>, and \<^verbatim>\<open>list.index\<close> (which compares with \<^verbatim>\<open>==\<close>
  and raises when nothing is found, here \<open>None\<close>).\<close>

definition level_order :: "ImpactLevel list" where
  "level_order = [NONE, LOW, MEDIUM, HIGH, CRITICAL]"

fun order_index :: "ImpactLevel list \<Rightarrow> ImpactLevel \<Rightarrow> nat option" where
  "order_index [] x = None"
| "order_index (y # ys) x =
     (if level_eq y x then Some 0 else map_option Suc (order_index ys x))"

text \<open>The position of a level in \<^verbatim>\<open>order\<close>. Every level occurs in the list
  (lemma \<open>order_index_total\<close> below), so the default is never taken.\<close>

definition level_rank :: "ImpactLevel \<Rightarrow> nat" where
  "level_rank a = (case order_index level_order a of Some i \<Rightarrow> i | None \<Rightarrow> 0)"

definition level_lt :: "ImpactLevel \<Rightarrow> ImpactLevel \<Rightarrow> bool" where
  "level_lt a b = (level_rank a < level_rank b)"

text \<open>\<^verbatim>\<open>total_ordering\<close>: \<^verbatim>\<open>a > b\<close> is \<^verbatim>\<open>not (a < b) and a != b\<close>, \<^verbatim>\<open>a >= b\<close> is
  \<^verbatim>\<open>not (a < b)\<close>, \<^verbatim>\<open>a <= b\<close> is \<^verbatim>\<open>a < b or a == b\<close>.\<close>

definition level_gt :: "ImpactLevel \<Rightarrow> ImpactLevel \<Rightarrow> bool" where
  "level_gt a b = (\<not> level_lt a b \<and> \<not> level_eq a b)"

definition level_ge :: "ImpactLevel \<Rightarrow> ImpactLevel \<Rightarrow> bool" where
  "level_ge a b = (\<not> level_lt a b)"

definition level_le :: "ImpactLevel \<Rightarrow> ImpactLevel \<Rightarrow> bool" where
  "level_le a b = (level_lt a b \<or> level_eq a b)"

section \<open>Impact items and the report\<close>

record ImpactItem =
  category :: string
  impact_level :: ImpactLevel
  file_path :: string
  description :: string
  details :: "string list"
  recommendation :: "string option"

text \<open>The \<^verbatim>\<open>summary\<close> dictionary is kept as the list of its entries in insertion
  order; the dataclass default is the empty dictionary.\<close>

record ImpactReport =
  overall_impact :: ImpactLevel
  items :: "ImpactItem list"
  summary :: "(string \<times> nat) list"
  changed_files :: "string list"

text \<open>\<^verbatim>\<open>ImpactReport(overall_impact=ImpactLevel.NONE)\<close>, as built by the checker.\<close>

definition new_report :: ImpactReport where
  "new_report = \<lparr>overall_impact = NONE, items = [], summary = [], changed_files = []\<rparr>"

text \<open>The update of \<^verbatim>\<open>overall_impact\<close> inside \<^verbatim>\<open>add_item\<close>: the new level replaces
  the current one when it is greater.\<close>

definition raise_impact :: "ImpactLevel \<Rightarrow> ImpactLevel \<Rightarrow> ImpactLevel" where
  "raise_impact cur new = (if level_gt new cur then new else cur)"

definition add_item :: "ImpactReport \<Rightarrow> ImpactItem \<Rightarrow> ImpactReport" where
  "add_item r item =
     r\<lparr>items := items r @ [item],
       overall_impact := raise_impact (overall_impact r) (impact_level item)\<rparr>"

definition count_level :: "ImpactLevel \<Rightarrow> ImpactItem list \<Rightarrow> nat" where
  "count_level l xs = length (filter (\<lambda>i. level_eq (impact_level i) l) xs)"

definition generate_summary :: "ImpactReport \<Rightarrow> ImpactReport" where
  "generate_summary r =
     r\<lparr>summary :=
        [(''total_items'', length (items r)),
         (''critical'', count_level CRITICAL (items r)),
         (''high'', count_level HIGH (items r)),
         (''medium'', count_level MEDIUM (items r)),
         (''low'', count_level LOW (items r))]\<rparr>"

text \<open>Adding a sequence of items to a report, one after the other.\<close>

definition add_items :: "ImpactReport \<Rightarrow> ImpactItem list \<Rightarrow> ImpactReport" where
  "add_items r xs = foldl add_item r xs"

section \<open>Strings\<close>

text \<open>\<^verbatim>\<open>s.startswith(p)\<close>, \<^verbatim>\<open>s.split(sep)\<close> for a separator of one character (the
  result is never empty: the empty string splits into one empty field), and \<^verbatim>\<open>str(n)\<close>
  for a natural number.\<close>

definition startswith :: "string \<Rightarrow> string \<Rightarrow> bool" where
  "startswith s p = (take (length p) s = p)"

fun split_on :: "char \<Rightarrow> string \<Rightarrow> string list" where
  "split_on d [] = [[]]"
| "split_on d (c # cs) =
     (if c = d then [] # split_on d cs
      else (case split_on d cs of [] \<Rightarrow> [[c]] | l # ls \<Rightarrow> (c # l) # ls))"

definition newline :: char where
  "newline = CHR 0x0A"

definition backslash :: char where
  "backslash = CHR 0x5C"

definition is_digit :: "char \<Rightarrow> bool" where
  "is_digit c = (c \<in> set ''0123456789'')"

definition digit_val :: "char \<Rightarrow> nat" where
  "digit_val c = of_char c - 48"

definition digit_char :: "nat \<Rightarrow> char" where
  "digit_char d = ''0123456789'' ! d"

text \<open>\<^verbatim>\<open>int(ds)\<close> on a string of decimal digits.\<close>

definition int_of_digits :: "string \<Rightarrow> nat" where
  "int_of_digits ds = foldl (\<lambda>a c. 10 * a + digit_val c) 0 ds"

fun str_nat :: "nat \<Rightarrow> string" where
  "str_nat n = (if n < 10 then [digit_char n] else str_nat (n div 10) @ [digit_char (n mod 10)])"

declare str_nat.simps [simp del]

section \<open>Hunk headers\<close>

text \<open>
  \<^verbatim>\<open>re.match(r'^@@ -\d+(?:,\d+)? \+(\d+)(?:,\d+)? @@', diff_line)\<close> followed by
  \<^verbatim>\<open>int(hunk_match.group(1))\<close>. The expression is matched at the start of the line and
  has no choice points that matter: a run of digits is followed by a character that is
  not a digit, so the greedy \<^verbatim>\<open>\d+\<close> takes the whole run, and the optional group
  \<^verbatim>\<open>,\d+\<close> is taken exactly when a comma and a digit follow. Characters are bytes here,
  among which the decimal digits are \<^verbatim>\<open>0\<close> to \<^verbatim>\<open>9\<close>.
\<close>

definition strip_prefix :: "string \<Rightarrow> string \<Rightarrow> string option" where
  "strip_prefix p s = (if startswith s p then Some (drop (length p) s) else None)"

definition digits1 :: "string \<Rightarrow> (string \<times> string) option" where
  "digits1 s =
     (let ds = takeWhile is_digit s
      in if ds = [] then None else Some (ds, dropWhile is_digit s))"

definition opt_count :: "string \<Rightarrow> string" where
  "opt_count s =
     (case s of
        [] \<Rightarrow> s
      | c # r \<Rightarrow>
          if c = CHR '','' then (case digits1 r of None \<Rightarrow> s | Some (ds, r') \<Rightarrow> r')
          else s)"

definition hunk_match :: "string \<Rightarrow> nat option" where
  "hunk_match diff_line =
     (case strip_prefix ''@@ -'' diff_line of
        None \<Rightarrow> None
      | Some r1 \<Rightarrow>
     (case digits1 r1 of
        None \<Rightarrow> None
      | Some (a, r2) \<Rightarrow>
     (case strip_prefix '' +'' (opt_count r2) of
        None \<Rightarrow> None
      | Some r3 \<Rightarrow>
     (case digits1 r3 of
        None \<Rightarrow> None
      | Some (c, r4) \<Rightarrow>
     (case strip_prefix '' @@'' (opt_count r4) of
        None \<Rightarrow> None
      | Some r5 \<Rightarrow> Some (int_of_digits c))))))"

section \<open>Content patterns over the added lines of a diff\<close>

text \<open>
  \<^verbatim>\<open>check_content_patterns\<close>. The regular-expression engine is not part of the
  repository: \<open>findall p l\<close> stands for \<^verbatim>\<open>re.findall(p, l, re.IGNORECASE)\<close>, the list of
  the matches of pattern \<open>p\<close> in the line \<open>l\<close> (for a pattern with groups, what
  \<^verbatim>\<open>findall\<close> returns for each match, rendered as a string), for patterns that compile.
  A match is the pair of the dictionary's two entries \<^verbatim>\<open>pattern\<close> and \<^verbatim>\<open>line_number\<close>.
  The cursor \<^verbatim>\<open>current_line\<close> starts at 0 and is only ever set to a parsed number or
  incremented, so it is a natural number.
\<close>

type_synonym match = "string \<times> nat"

type_synonym regex_findall = "string \<Rightarrow> string \<Rightarrow> string list"

definition is_added_line :: "string \<Rightarrow> bool" where
  "is_added_line diff_line = (startswith diff_line ''+'' \<and> \<not> startswith diff_line ''+++'')"

definition line_matches :: "regex_findall \<Rightarrow> string list \<Rightarrow> string \<Rightarrow> nat \<Rightarrow> match list" where
  "line_matches findall patterns line_content current_line =
     concat (map (\<lambda>pattern. map (\<lambda>match_text. (match_text, current_line))
                                  (findall pattern line_content)) patterns)"

text \<open>One round of the loop over the lines, on the state \<open>(matches, current_line)\<close>.\<close>

definition scan_line ::
  "regex_findall \<Rightarrow> string list \<Rightarrow> match list \<times> nat \<Rightarrow> string \<Rightarrow> match list \<times> nat" where
  "scan_line findall patterns st diff_line =
     (case st of (matches, current_line) \<Rightarrow>
        (case hunk_match diff_line of
           Some c \<Rightarrow> (matches, c)
         | None \<Rightarrow>
             if is_added_line diff_line then
               (matches @ line_matches findall patterns (drop 1 diff_line) current_line,
                current_line + 1)
             else if startswith diff_line ''-'' \<or> startswith diff_line ''---'' then
               (matches, current_line)
             else if \<not> startswith diff_line [backslash] then
               (matches, current_line + 1)
             else (matches, current_line)))"

definition check_content_patterns :: "regex_findall \<Rightarrow> string \<Rightarrow> string list \<Rightarrow> match list" where
  "check_content_patterns findall diff_content patterns =
     fst (foldl (scan_line findall patterns) ([], 0) (split_on newline diff_content))"

text \<open>
  The diff line mapper is the same loop looked at without the patterns: one pattern
  whose only match in a line is the line itself makes the loop emit each added line
  with the cursor's value.
\<close>

definition diff_line_mapper :: "string \<Rightarrow> (string \<times> nat) list" where
  "diff_line_mapper diff_content = check_content_patterns (\<lambda>p l. [l]) diff_content [[]]"

section \<open>Path patterns\<close>

text \<open>
  \<^verbatim>\<open>check_path_patterns\<close> calls \<^verbatim>\<open>fnmatch.fnmatch\<close> of the Python standard library,
  which is modelled here after \<^verbatim>\<open>fnmatch.translate\<close>: a pattern is translated, character
  by character, into a sequence of items, and the whole name has to match the sequence.
  \<^verbatim>\<open>*\<close> becomes \<open>Star\<close> (any run of characters), \<^verbatim>\<open>?\<close> any one character, a bracket
  expression with its closing bracket a set of characters, a bracket without a closing
  one the character itself, and every other character itself. Names and patterns are
  not case-normalised (\<^verbatim>\<open>os.path.normcase\<close> on POSIX is the identity).
\<close>

datatype glob_item =
    Star
  | AnyChar
  | NoChar
  | Lit char
  | CharSet bool "(char \<times> char) list"

text \<open>The text between the brackets: an optional \<^verbatim>\<open>!\<close>, an optional \<^verbatim>\<open>]\<close> right after,
  then everything up to the next \<^verbatim>\<open>]\<close>. \<open>None\<close> when no bracket closes the expression.\<close>

definition bracket_body :: "string \<Rightarrow> (string \<times> string) option" where
  "bracket_body rest =
     (let (neg, r1) = (if startswith rest ''!'' then (''!'', drop 1 rest) else ([], rest));
          (fst_br, r2) = (if startswith r1 '']'' then ('']'', drop 1 r1) else ([], r1));
          body = takeWhile (\<lambda>c. c \<noteq> CHR '']'') r2;
          after = dropWhile (\<lambda>c. c \<noteq> CHR '']'') r2
      in if after = [] then None else Some (neg @ fst_br @ body, drop 1 after))"

text \<open>The chunks between the hyphens that make ranges. The search for a hyphen
  leaves out the first \<open>k\<close> characters of the chunk being read.\<close>

fun range_chunks :: "nat \<Rightarrow> string \<Rightarrow> string \<Rightarrow> string list" where
  "range_chunks k acc [] = [acc]"
| "range_chunks k acc (c # cs) =
     (if k = 0 \<and> c = CHR ''-'' then acc # range_chunks 2 [] cs
      else range_chunks (k - 1) (acc @ [c]) cs)"

text \<open>An empty last chunk means the text ended in a hyphen, which then belongs to
  the chunk before it.\<close>

definition close_chunks :: "string list \<Rightarrow> string list" where
  "close_chunks chunks =
     (if chunks \<noteq> [] \<and> last chunks = [] \<and> butlast chunks \<noteq> []
      then butlast (butlast chunks) @ [last (butlast chunks) @ ''-'']
      else chunks)"

definition char_gt :: "char \<Rightarrow> char \<Rightarrow> bool" where
  "char_gt a b = ((of_char b :: nat) < of_char a)"

text \<open>Empty ranges are removed, from the last chunk to the first.\<close>

fun drop_empty_ranges :: "string list \<Rightarrow> string list" where
  "drop_empty_ranges [] = []"
| "drop_empty_ranges [c] = [c]"
| "drop_empty_ranges (c1 # c2 # cs) =
     (case drop_empty_ranges (c2 # cs) of
        [] \<Rightarrow> [c1]
      | d # ds \<Rightarrow>
          if c1 \<noteq> [] \<and> d \<noteq> [] \<and> char_gt (last c1) (hd d)
          then (butlast c1 @ tl d) # ds
          else c1 # d # ds)"

text \<open>The members of the set written by the chunks joined with hyphens: the
  characters of each chunk, and a range from the last character of a chunk to the first
  of the next.\<close>

fun chunk_ranges :: "string list \<Rightarrow> (char \<times> char) list" where
  "chunk_ranges [] = []"
| "chunk_ranges [c] = map (\<lambda>x. (x, x)) c"
| "chunk_ranges (c1 # c2 # cs) =
     (if c1 = [] \<or> c2 = [] then map (\<lambda>x. (x, x)) c1 @ chunk_ranges (c2 # cs)
      else map (\<lambda>x. (x, x)) (butlast c1) @ [(last c1, hd c2)] @ chunk_ranges (tl c2 # cs))"

definition bracket_item :: "string \<Rightarrow> glob_item" where
  "bracket_item stuff =
     (let chunks =
            (if CHR ''-'' \<notin> set stuff then [stuff]
             else drop_empty_ranges
                    (close_chunks (range_chunks (if startswith stuff ''!'' then 2 else 1) [] stuff)))
      in if concat chunks = [] \<and> length chunks \<le> 1 then NoChar
         else if chunks = [''!''] then AnyChar
         else if startswith (hd chunks) ''!''
              then CharSet True (chunk_ranges (tl (hd chunks) # tl chunks))
              else CharSet False (chunk_ranges chunks))"

text \<open>\<^verbatim>\<open>translate\<close>, with \<open>n\<close> bounding the number of characters still to read.\<close>

fun translate_fuel :: "nat \<Rightarrow> string \<Rightarrow> glob_item list" where
  "translate_fuel 0 pat = []"
| "translate_fuel (Suc n) [] = []"
| "translate_fuel (Suc n) (c # rest) =
     (if c = CHR ''*'' then Star # translate_fuel n rest
      else if c = CHR ''?'' then AnyChar # translate_fuel n rest
      else if c = CHR ''['' then
        (case bracket_body rest of
           None \<Rightarrow> Lit c # translate_fuel n rest
         | Some (stuff, rest') \<Rightarrow> bracket_item stuff # translate_fuel n rest')
      else Lit c # translate_fuel n rest)"

definition translate :: "string \<Rightarrow> glob_item list" where
  "translate pat = translate_fuel (length pat) pat"

definition in_ranges :: "(char \<times> char) list \<Rightarrow> char \<Rightarrow> bool" where
  "in_ranges rs c = list_ex (\<lambda>(lo, hi). \<not> char_gt lo c \<and> \<not> char_gt c hi) rs"

fun glob_match :: "glob_item list \<Rightarrow> string \<Rightarrow> bool" where
  "glob_match [] s = (s = [])"
| "glob_match (Star # ts) s =
     (glob_match ts s \<or> (case s of [] \<Rightarrow> False | x # xs \<Rightarrow> glob_match (Star # ts) xs))"
| "glob_match (AnyChar # ts) s = (case s of [] \<Rightarrow> False | x # xs \<Rightarrow> glob_match ts xs)"
| "glob_match (NoChar # ts) s = False"
| "glob_match (Lit c # ts) s = (case s of [] \<Rightarrow> False | x # xs \<Rightarrow> x = c \<and> glob_match ts xs)"
| "glob_match (CharSet neg rs # ts) s =
     (case s of [] \<Rightarrow> False | x # xs \<Rightarrow> (in_ranges rs x \<noteq> neg) \<and> glob_match ts xs)"

definition fnmatch :: "string \<Rightarrow> string \<Rightarrow> bool" where
  "fnmatch name pat = glob_match (translate pat) name"

definition check_path_patterns :: "string \<Rightarrow> string list \<Rightarrow> bool" where
  "check_path_patterns path patterns = list_ex (\<lambda>pattern. fnmatch path pattern) patterns"

section \<open>Analysis of one file\<close>

text \<open>
  One entry of \<^verbatim>\<open>config["patterns"]\<close>: a rule name with its settings. A key that may
  be absent is an option. \<^verbatim>\<open>paths\<close>, \<^verbatim>\<open>content_patterns\<close> and \<^verbatim>\<open>recommendation\<close> are
  read with \<^verbatim>\<open>get\<close>, the first two with the default \<^verbatim>\<open>[]\<close>; \<^verbatim>\<open>impact_level\<close> and
  \<^verbatim>\<open>description\<close> are read with a subscript, which raises \<^verbatim>\<open>KeyError\<close> when the key is
  absent. The dictionary of the rules keeps its order, so it is a list of pairs.
\<close>

record PatternConfig =
  cfg_paths :: "string list option"
  cfg_content_patterns :: "string list option"
  cfg_impact_level :: "string option"
  cfg_description :: "string option"
  cfg_recommendation :: "string option"

type_synonym patterns_config = "(string \<times> PatternConfig) list"

definition get_list :: "string list option \<Rightarrow> string list" where
  "get_list v = (case v of None \<Rightarrow> [] | Some xs \<Rightarrow> xs)"

definition format_detail :: "string \<Rightarrow> match \<Rightarrow> string" where
  "format_detail path m =
     ''Found `'' @ fst m @ ''` in `'' @ path @ ''` at line '' @ str_nat (snd m)"

text \<open>The loop that removes duplicates and stops at five entries: \<open>seen\<close> is the
  set of keys met so far, \<open>ds\<close> the entries written so far.\<close>

fun dedup_details :: "string \<Rightarrow> match list \<Rightarrow> match set \<Rightarrow> string list \<Rightarrow> string list" where
  "dedup_details path [] seen ds = ds"
| "dedup_details path (m # ms) seen ds =
     (let key = (fst m, snd m);
          new = (key \<notin> seen);
          seen' = (if new then insert key seen else seen);
          ds' = (if new then ds @ [format_detail path m] else ds)
      in if length ds' \<ge> 5 then ds' else dedup_details path ms seen' ds')"

text \<open>The body of the loop over the rules in \<^verbatim>\<open>analyze_file\<close>, for one rule: the
  report is returned as it is when the rule is skipped, with one more item when it
  fires.\<close>

definition analyze_rule ::
  "regex_findall \<Rightarrow> string \<Rightarrow> string \<Rightarrow> ImpactReport \<Rightarrow> string \<times> PatternConfig
     \<Rightarrow> error + ImpactReport" where
  "analyze_rule findall path diff_content report rule =
     (case rule of (pattern_name, pattern_config) \<Rightarrow>
        let path_patterns = get_list (cfg_paths pattern_config) in
        if path_patterns \<noteq> [] \<and> \<not> check_path_patterns path path_patterns then Inr report
        else
          let content_patterns = get_list (cfg_content_patterns pattern_config);
              matches = check_content_patterns findall diff_content content_patterns
          in
          if content_patterns \<noteq> [] \<and> matches = [] then Inr report
          else
            let ds = (if content_patterns \<noteq> [] then dedup_details path matches {} [] else [])
            in
            (case cfg_impact_level pattern_config of
               None \<Rightarrow> Inl (KeyError ''impact_level'')
             | Some v \<Rightarrow>
            (case ImpactLevel_of v of
               Inl e \<Rightarrow> Inl e
             | Inr level \<Rightarrow>
            (case cfg_description pattern_config of
               None \<Rightarrow> Inl (KeyError ''description'')
             | Some d \<Rightarrow>
                 Inr (add_item report
                        \<lparr>category = pattern_name, impact_level = level, file_path = path,
                         description = d, details = ds,
                         recommendation = cfg_recommendation pattern_config\<rparr>)))))"

fun analyze_rules ::
  "regex_findall \<Rightarrow> string \<Rightarrow> string \<Rightarrow> ImpactReport \<Rightarrow> patterns_config
     \<Rightarrow> error + ImpactReport" where
  "analyze_rules findall path diff_content report [] = Inr report"
| "analyze_rules findall path diff_content report (rule # rules) =
     (case analyze_rule findall path diff_content report rule of
        Inl e \<Rightarrow> Inl e
      | Inr report' \<Rightarrow> analyze_rules findall path diff_content report' rules)"

text \<open>\<^verbatim>\<open>analyze_file\<close>. \<open>get_file_diff\<close> stands for the call of git: it gives the diff
  of a file, and the empty string when git fails.\<close>

definition analyze_file ::
  "regex_findall \<Rightarrow> patterns_config \<Rightarrow> (string \<Rightarrow> string) \<Rightarrow> ImpactReport \<Rightarrow> string
     \<Rightarrow> error + ImpactReport" where
  "analyze_file findall config get_file_diff report path =
     analyze_rules findall path (get_file_diff path) report config"

section \<open>Analysis of a change\<close>

definition in_github_dir :: "string \<Rightarrow> bool" where
  "in_github_dir path = (startswith path ''.github/'' \<or> path = ''.github'')"

fun analyze_files ::
  "regex_findall \<Rightarrow> patterns_config \<Rightarrow> (string \<Rightarrow> string) \<Rightarrow> ImpactReport \<Rightarrow> string list
     \<Rightarrow> error + ImpactReport" where
  "analyze_files findall config get_file_diff report [] = Inr report"
| "analyze_files findall config get_file_diff report (path # paths) =
     (if in_github_dir path then analyze_files findall config get_file_diff report paths
      else (case analyze_file findall config get_file_diff report path of
              Inl e \<Rightarrow> Inl e
            | Inr report' \<Rightarrow> analyze_files findall config get_file_diff report' paths))"

text \<open>\<^verbatim>\<open>analyze\<close>, on the report the checker was built with. \<open>files\<close> is what
  \<^verbatim>\<open>get_changed_files\<close> returns, which also stores it in the report (when git fails it
  returns the empty list and the report keeps its own empty list).\<close>

definition analyze ::
  "regex_findall \<Rightarrow> patterns_config \<Rightarrow> (string \<Rightarrow> string) \<Rightarrow> string list
     \<Rightarrow> error + ImpactReport" where
  "analyze findall config get_file_diff files =
     (let report = new_report\<lparr>changed_files := files\<rparr>
      in if files = [] then Inr report
         else (case analyze_files findall config get_file_diff report files of
                 Inl e \<Rightarrow> Inl e
               | Inr report' \<Rightarrow> Inr (generate_summary report')))"

section \<open>The exit code\<close>

text \<open>The end of \<^verbatim>\<open>main\<close>, after the report has been printed: \<open>fail_on\<close> is the
  value of \<^verbatim>\<open>--fail-on\<close> (\<open>None\<close> when the option is not given), which the argument
  parser restricts to \<open>fail_on_choices\<close>; the result is the code given to
  \<^verbatim>\<open>sys.exit\<close>.\<close>

definition fail_on_choices :: "string list" where
  "fail_on_choices = [''critical'', ''high'', ''medium'', ''low'']"

definition main_exit_code :: "string option \<Rightarrow> ImpactReport \<Rightarrow> error + nat" where
  "main_exit_code fail_on report =
     (case fail_on of
        None \<Rightarrow> Inr 0
      | Some v \<Rightarrow>
          if v = [] then Inr 0
          else (case ImpactLevel_of v of
                  Inl e \<Rightarrow> Inl e
                | Inr threshold \<Rightarrow>
                    if level_ge (overall_impact report) threshold then Inr 1 else Inr 0))"

section \<open>The Slack notification\<close>

text \<open>
  \<^verbatim>\<open>send_slack_notification.py\<close>. The payload is kept as a tree of JSON values
  (\<^verbatim>\<open>json.dumps\<close> writes it out), an object as the list of its entries.
  \<open>str_upper\<close> is \<^verbatim>\<open>str.upper\<close> on the letters a to z, which is all the severity
  names contain.
\<close>

datatype json = JString string | JArray "json list" | JObject "(string \<times> json) list"

definition EMOJI :: "(string \<times> string) list" where
  "EMOJI =
     [(''critical'', '':red_circle:''),
      (''high'', '':large_orange_circle:''),
      (''medium'', '':large_yellow_circle:''),
      (''low'', '':large_green_circle:'')]"

definition SKIP_PR_STATUSES :: "string set" where
  "SKIP_PR_STATUSES = {''draft''}"

definition upper_char :: "char \<Rightarrow> char" where
  "upper_char c =
     (if (97::nat) \<le> of_char c \<and> of_char c \<le> (122::nat) then char_of (of_char c - (32::nat)) else c)"

definition str_upper :: "string \<Rightarrow> string" where
  "str_upper s = map upper_char s"

definition mrkdwn :: "string \<Rightarrow> json" where
  "mrkdwn t = JObject [(''type'', JString ''mrkdwn''), (''text'', JString t)]"

definition build_payload :: "string \<Rightarrow> string \<Rightarrow> string \<Rightarrow> string \<Rightarrow> json" where
  "build_payload repo pr_number pr_url impact =
     (let emoji = (case map_of EMOJI impact of None \<Rightarrow> '':white_circle:'' | Some e \<Rightarrow> e)
      in JObject
           [(''blocks'', JArray
              [JObject
                 [(''type'', JString ''header''),
                  (''text'', JObject
                     [(''type'', JString ''plain_text''),
                      (''text'', JString ''SC Environment Impact Assessment'')])],
               JObject
                 [(''type'', JString ''section''),
                  (''fields'', JArray
                     [mrkdwn (''*Repository:*'' @ [newline] @ repo),
                      mrkdwn (''*Pull Request:*'' @ [newline] @ ''<'' @ pr_url @ ''|#'' @ pr_number @ ''>''),
                      mrkdwn (''*Overall Impact:*'' @ [newline] @ emoji @ '' '' @ str_upper impact)])],
               JObject
                 [(''type'', JString ''actions''),
                  (''elements'', JArray
                     [JObject
                        [(''type'', JString ''button''),
                         (''text'', JObject
                            [(''type'', JString ''plain_text''),
                             (''text'', JString ''View Pull Request'')]),
                         (''url'', JString pr_url)]])]])])"

text \<open>\<^verbatim>\<open>str.strip()\<close>: the white space of Python among the characters below 256.\<close>

definition is_space :: "char \<Rightarrow> bool" where
  "is_space c =
     (let n = (of_char c :: nat)
      in (9 \<le> n \<and> n \<le> 13) \<or> (28 \<le> n \<and> n \<le> 32) \<or> n = 133 \<or> n = 160)"

definition strip :: "string \<Rightarrow> string" where
  "strip s = rev (dropWhile is_space (rev (dropWhile is_space s)))"

text \<open>\<^verbatim>\<open>os.environ.get("PR_STATUS", "").strip()\<close>\<close>

definition pr_status_of :: "(string \<Rightarrow> string option) \<Rightarrow> string" where
  "pr_status_of environ = strip (case environ ''PR_STATUS'' of None \<Rightarrow> [] | Some v \<Rightarrow> v)"

record request =
  req_url :: string
  req_data :: json
  req_headers :: "(string \<times> string) list"
  req_method :: string

datatype outcome = Exit nat | Raised error | Returned

text \<open>
  \<^verbatim>\<open>main\<close> of the notification script. \<open>environ\<close> is \<^verbatim>\<open>os.environ\<close>; \<open>urlopen\<close>
  stands for building the request and \<^verbatim>\<open>urllib.request.urlopen\<close>, with \<open>Some e\<close> for the
  exception a failed delivery raises. The result is how the run ends, with the list of
  the requests that were sent to \<open>urlopen\<close>.
\<close>

definition slack_main ::
  "(request \<Rightarrow> error option) \<Rightarrow> (string \<Rightarrow> string option) \<Rightarrow> outcome \<times> request list" where
  "slack_main urlopen environ =
     (case environ ''SC_ASSESSOR_SLACK_URL'' of
        None \<Rightarrow> (Exit 0, [])
      | Some webhook_url \<Rightarrow>
          if webhook_url = [] then (Exit 0, [])
          else
            let pr_status = pr_status_of environ in
            if pr_status \<in> SKIP_PR_STATUSES then (Exit 0, [])
            else
            (case environ ''GITHUB_REPOSITORY'' of
               None \<Rightarrow> (Raised (KeyError ''GITHUB_REPOSITORY''), [])
             | Some repo \<Rightarrow>
            (case environ ''GITHUB_SERVER_URL'' of
               None \<Rightarrow> (Raised (KeyError ''GITHUB_SERVER_URL''), [])
             | Some server_url \<Rightarrow>
            (case environ ''PR_NUMBER'' of
               None \<Rightarrow> (Raised (KeyError ''PR_NUMBER''), [])
             | Some pr_number \<Rightarrow>
            (case environ ''OVERALL_IMPACT'' of
               None \<Rightarrow> (Raised (KeyError ''OVERALL_IMPACT''), [])
             | Some impact \<Rightarrow>
                 let pr_url = server_url @ ''/'' @ repo @ ''/pull/'' @ pr_number;
                     payload = build_payload repo pr_number pr_url impact;
                     req = \<lparr>req_url = webhook_url, req_data = payload,
                            req_headers = [(''Content-Type'', ''application/json'')],
                            req_method = ''POST''\<rparr>
                 in (case urlopen req of
                       Some e \<Rightarrow> (Raised e, [req])
                     | None \<Rightarrow> (Returned, [req])))))))"

section \<open>Examples\<close>

definition example_item :: "ImpactLevel \<Rightarrow> ImpactItem" where
  "example_item l =
     \<lparr>category = ''rule'', impact_level = l, file_path = ''f'', description = ''d'',
      details = [], recommendation = None\<rparr>"

definition no_matches :: regex_findall where
  "no_matches p l = []"

definition no_diff :: "string \<Rightarrow> string" where
  "no_diff f = []"

definition none_config :: patterns_config where
  "none_config =
     [(''note'', \<lparr>cfg_paths = None, cfg_content_patterns = None,
                 cfg_impact_level = Some ''none'', cfg_description = Some ''Note'',
                 cfg_recommendation = None\<rparr>)]"

definition example_environ :: "string \<Rightarrow> string option" where
  "example_environ =
     map_of [(''SC_ASSESSOR_SLACK_URL'', ''https://hooks.example/T0''),
             (''PR_STATUS'', ''open''),
             (''GITHUB_REPOSITORY'', ''org/repo''),
             (''GITHUB_SERVER_URL'', ''https://github.com''),
             (''PR_NUMBER'', ''7''),
             (''OVERALL_IMPACT'', ''high'')]"

definition draft_environ :: "string \<Rightarrow> string option" where
  "draft_environ = example_environ(''PR_STATUS'' \<mapsto> '' draft'')"

definition failing_urlopen :: "request \<Rightarrow> error option" where
  "failing_urlopen req = Some (URLError ''unreachable'')"

text \<open>The two conditions under which no notification is sent.\<close>

definition skip_condition :: "(string \<Rightarrow> string option) \<Rightarrow> bool" where
  "skip_condition environ =
     (environ ''SC_ASSESSOR_SLACK_URL'' = None \<or> environ ''SC_ASSESSOR_SLACK_URL'' = Some []
      \<or> pr_status_of environ = ''draft'')"

text \<open>What a report found: the overall severity and the evidences.\<close>

definition findings :: "ImpactReport \<Rightarrow> ImpactLevel \<times> ImpactItem list" where
  "findings r = (overall_impact r, items r)"

definition catch_all_config :: patterns_config where
  "catch_all_config =
     [(''any_change'', \<lparr>cfg_paths = None, cfg_content_patterns = None,
                        cfg_impact_level = Some ''critical'', cfg_description = Some ''Any change'',
                        cfg_recommendation = None\<rparr>)]"

section \<open>Definitions for the statements\<close>


text \<open>A small stand-in for the regular-expression engine in the examples: a pattern
  matches a line that starts with it, once.\<close>

definition prefix_findall :: regex_findall where
  "prefix_findall p l = (if startswith l p then [p] else [])"

text \<open>The pairs that the loop of \<^verbatim>\<open>check_content_patterns\<close> gives to the patterns,
  by recursion over the lines: each added line with the value of the cursor.\<close>

fun mapper_lines :: "nat \<Rightarrow> string list \<Rightarrow> (string \<times> nat) list" where
  "mapper_lines n [] = []"
| "mapper_lines n (l # ls) =
     (case hunk_match l of
        Some c \<Rightarrow> mapper_lines c ls
      | None \<Rightarrow>
          if is_added_line l then (drop 1 l, n) # mapper_lines (n + 1) ls
          else if startswith l ''-'' then mapper_lines n ls
          else if startswith l [backslash] then mapper_lines n ls
          else mapper_lines (n + 1) ls)"

text \<open>The added lines of a diff, without their marker.\<close>

definition added_lines :: "string \<Rightarrow> string list" where
  "added_lines diff_content = map (drop 1) (filter is_added_line (split_on newline diff_content))"

text \<open>When a rule is to fire on a file, in the words of the specification.\<close>

definition spec_rule_fires :: "regex_findall \<Rightarrow> string \<Rightarrow> string \<Rightarrow> PatternConfig \<Rightarrow> bool" where
  "spec_rule_fires findall path diff_content cfg =
     ((get_list (cfg_paths cfg) = [] \<or> (\<exists>p \<in> set (get_list (cfg_paths cfg)). fnmatch path p))
      \<and> (get_list (cfg_content_patterns cfg) = []
          \<or> (\<exists>cp \<in> set (get_list (cfg_content_patterns cfg)).
                \<exists>l \<in> set (added_lines diff_content). findall cp l \<noteq> [])))"





text \<open>The characters that \<^verbatim>\<open>fnmatch.translate\<close> does not take literally.\<close>

definition glob_special :: "char \<Rightarrow> bool" where
  "glob_special c = (c = CHR ''*'' \<or> c = CHR ''?'' \<or> c = CHR ''['')"


definition clowdapp_rule :: PatternConfig where
  "clowdapp_rule =
     \<lparr>cfg_paths = Some [''deploy/clowdapp.yml'', ''deploy/*.yml''], cfg_content_patterns = None,
      cfg_impact_level = Some ''high'', cfg_description = Some ''ClowdApp configuration change'',
      cfg_recommendation = None\<rparr>"

definition rds_rule :: PatternConfig where
  "rds_rule =
     \<lparr>cfg_paths = Some [''deploy/*.yml''], cfg_content_patterns = Some [''aurora''],
      cfg_impact_level = Some ''high'', cfg_description = Some ''AWS RDS configuration change'',
      cfg_recommendation = None\<rparr>"

definition kessel_rule :: PatternConfig where
  "kessel_rule =
     \<lparr>cfg_paths = None, cfg_content_patterns = Some [''kessel''],
      cfg_impact_level = Some ''critical'', cfg_description = Some ''Kessel integration change'',
      cfg_recommendation = None\<rparr>"

definition example_config :: patterns_config where
  "example_config =
     [(''clowdapp_config'', clowdapp_rule), (''aws_rds'', rds_rule),
      (''kessel_integration'', kessel_rule)]"

definition example_diff :: string where
  "example_diff =
     ''@@ -1,1 +1,2 @@'' @ [newline] @ '' name: app'' @ [newline] @ ''+kessel: on''"

definition example_get_file_diff :: "string \<Rightarrow> string" where
  "example_get_file_diff path = example_diff"

text \<open>An evidence is of a rule for a file: it has the name of the rule and the path of
  the file, and no details when the rule has no content patterns.\<close>

definition item_of_rule :: "string \<Rightarrow> ImpactItem \<Rightarrow> string \<times> PatternConfig \<Rightarrow> bool" where
  "item_of_rule path item rule =
     (category item = fst rule \<and> file_path item = path
      \<and> (get_list (cfg_content_patterns (snd rule)) = [] \<longrightarrow> details item = []))"

section \<open>Facts about the severity order\<close>

lemma order_index_total: "order_index level_order a \<noteq> None"
  by (cases a) (simp_all add: level_order_def level_eq_def)

lemma level_rank_simps [simp]:
  "level_rank NONE = 0" "level_rank LOW = 1" "level_rank MEDIUM = 2"
  "level_rank HIGH = 3" "level_rank CRITICAL = 4"
  by (simp_all add: level_rank_def level_order_def level_eq_def)

lemma level_eq_iff [simp]: "level_eq a b \<longleftrightarrow> a = b"
  by (cases a; cases b) (simp_all add: level_eq_def)

lemma level_rank_inj: "level_rank a = level_rank b \<longleftrightarrow> a = b"
  by (cases a; cases b) simp_all

lemma level_gt_rank: "level_gt a b \<longleftrightarrow> level_rank b < level_rank a"
  using level_rank_inj [of a b] by (auto simp: level_gt_def level_lt_def)

lemma level_ge_rank: "level_ge a b \<longleftrightarrow> level_rank b \<le> level_rank a"
  by (auto simp: level_ge_def level_lt_def)

lemma rank_raise_impact: "level_rank (raise_impact a b) = max (level_rank a) (level_rank b)"
  by (auto simp: raise_impact_def level_gt_rank)

lemma raise_impact_assoc: "raise_impact (raise_impact a b) c = raise_impact a (raise_impact b c)"
  by (rule level_rank_inj [THEN iffD1]) (simp add: rank_raise_impact max.assoc)

lemma raise_impact_commute: "raise_impact a b = raise_impact b a"
  by (rule level_rank_inj [THEN iffD1]) (simp add: rank_raise_impact max.commute)

lemma raise_impact_idem: "raise_impact a a = a"
  by (simp add: raise_impact_def level_gt_def)

lemma add_items_simps [simp]:
  "add_items r [] = r"
  "add_items r (x # xs) = add_items (add_item r x) xs"
  by (simp_all add: add_items_def)

lemma add_item_sel [simp]:
  "items (add_item r x) = items r @ [x]"
  "overall_impact (add_item r x) = raise_impact (overall_impact r) (impact_level x)"
  "summary (add_item r x) = summary r"
  "changed_files (add_item r x) = changed_files r"
  by (simp_all add: add_item_def)

lemma items_add_items: "items (add_items r xs) = items r @ xs"
  by (induction xs arbitrary: r) simp_all

lemma rank_overall_add_items:
  "level_rank (overall_impact (add_items r xs)) =
     Max (insert (level_rank (overall_impact r)) (level_rank ` impact_level ` set xs))"
proof (induction xs arbitrary: r)
  case Nil
  show ?case by simp
next
  case (Cons x xs)
  have "Max (insert (max (level_rank (overall_impact r)) (level_rank (impact_level x)))
               (level_rank ` impact_level ` set xs)) =
        Max (insert (level_rank (overall_impact r))
               (insert (level_rank (impact_level x)) (level_rank ` impact_level ` set xs)))"
    by (cases "set xs = {}") (simp_all add: max.assoc)
  then show ?case
    by (simp only: add_items_simps Cons.IH add_item_sel rank_raise_impact list.set image_insert)
qed

text \<open>
  C3. After any sequence of evidences has been added to the report the checker starts
  with, the overall severity is the maximum, under the rank
  NONE < LOW < MEDIUM < HIGH < CRITICAL, of the severities added so far (NONE, of rank 0,
  for the empty sequence); two sequences holding the same evidences in a different order
  give the same overall severity; and the binary maximum that \<^verbatim>\<open>add_item\<close> applies is
  associative, commutative and idempotent.
\<close>

theorem overall_impact_is_max:
  "level_rank (overall_impact (add_items new_report es)) =
      Max (insert 0 (level_rank ` impact_level ` set es))
   \<and> (\<forall>es'. mset es' = mset es \<longrightarrow>
          overall_impact (add_items new_report es') = overall_impact (add_items new_report es))
   \<and> (\<forall>a b c. raise_impact (raise_impact a b) c = raise_impact a (raise_impact b c))
   \<and> (\<forall>a b. raise_impact a b = raise_impact b a)
   \<and> (\<forall>a. raise_impact a a = a)
   \<and> level_rank NONE = 0 \<and> level_rank LOW = 1 \<and> level_rank MEDIUM = 2
   \<and> level_rank HIGH = 3 \<and> level_rank CRITICAL = 4"
proof -
  have max_eq: "level_rank (overall_impact (add_items new_report xs)) =
      Max (insert 0 (level_rank ` impact_level ` set xs))" for xs
    using rank_overall_add_items [of new_report xs] by (simp add: new_report_def)
  have perm: "overall_impact (add_items new_report es') = overall_impact (add_items new_report es)"
    if "mset es' = mset es" for es'
  proof -
    from that have "set es' = set es" by (rule mset_eq_setD)
    then have "level_rank (overall_impact (add_items new_report es')) =
               level_rank (overall_impact (add_items new_report es))"
      by (simp add: max_eq)
    then show ?thesis by (simp add: level_rank_inj)
  qed
  have ranks: "level_rank NONE = 0 \<and> level_rank LOW = 1 \<and> level_rank MEDIUM = 2
      \<and> level_rank HIGH = 3 \<and> level_rank CRITICAL = 4"
    by simp
  show ?thesis
    by (intro conjI allI impI max_eq perm raise_impact_assoc raise_impact_commute
        raise_impact_idem ranks [THEN conjunct1] ranks [THEN conjunct2])
qed

theorem overall_impact_is_max_witness:
  "mset [example_item LOW, example_item HIGH] = mset [example_item HIGH, example_item LOW]
   \<and> overall_impact (add_items new_report [example_item LOW, example_item HIGH]) = HIGH
   \<and> overall_impact (add_items new_report [example_item HIGH, example_item LOW]) = HIGH"
proof -
  have m: "mset [example_item LOW, example_item HIGH] = mset [example_item HIGH, example_item LOW]"
    by (simp add: add.commute)
  have h: "overall_impact (add_items new_report [example_item HIGH, example_item LOW]) = HIGH"
    by (simp add: new_report_def example_item_def raise_impact_def level_gt_def level_lt_def)
  from overall_impact_is_max [of "[example_item HIGH, example_item LOW]"]
  have "overall_impact (add_items new_report [example_item LOW, example_item HIGH]) =
        overall_impact (add_items new_report [example_item HIGH, example_item LOW])"
    using m by blast
  with m h show ?thesis by simp
qed

section \<open>The threshold gate\<close>

lemma level_value_inj: "level_value a = level_value b \<longleftrightarrow> a = b"
  by (cases a; cases b) simp_all

lemma ImpactLevel_of_choice:
  "v \<in> set fail_on_choices \<Longrightarrow> \<exists>t. ImpactLevel_of v = Inr t \<and> level_value t = v \<and> t \<noteq> NONE"
  by (auto simp: fail_on_choices_def ImpactLevel_of_def)

text \<open>
  C7. When the option \<^verbatim>\<open>--fail-on\<close> is absent or holds one of its four choices, the run
  ends with exit code 0 or 1, and the code is 1 exactly when a threshold is given and the
  rank of the overall severity is at least the rank of the level the threshold names.
\<close>

theorem exit_code_gate:
  assumes "fail_on = None \<or> (\<exists>v \<in> set fail_on_choices. fail_on = Some v)"
  shows "\<exists>c. main_exit_code fail_on report = Inr c \<and> (c = 0 \<or> c = 1) \<and>
           (c = 1 \<longleftrightarrow>
              (\<exists>v threshold. fail_on = Some v \<and> level_value threshold = v \<and>
                  level_rank threshold \<le> level_rank (overall_impact report)))"
proof (cases fail_on)
  case None
  then show ?thesis by (simp add: main_exit_code_def)
next
  case (Some v)
  with assms have v: "v \<in> set fail_on_choices" by auto
  then obtain t where t: "ImpactLevel_of v = Inr t" "level_value t = v"
    using ImpactLevel_of_choice by blast
  from v have ne: "v \<noteq> []" by (auto simp: fail_on_choices_def)
  have uniq: "level_value t' = v \<Longrightarrow> t' = t" for t'
    using t(2) by (simp add: level_value_inj [symmetric])
  show ?thesis
  proof (cases "level_rank t \<le> level_rank (overall_impact report)")
    case True
    then have "main_exit_code fail_on report = Inr 1"
      using Some t ne by (simp add: main_exit_code_def level_ge_rank)
    moreover have "\<exists>v' threshold. fail_on = Some v' \<and> level_value threshold = v' \<and>
                  level_rank threshold \<le> level_rank (overall_impact report)"
      using Some t True by blast
    ultimately show ?thesis by simp
  next
    case False
    then have "main_exit_code fail_on report = Inr 0"
      using Some t ne by (simp add: main_exit_code_def level_ge_rank)
    moreover have "\<not> (\<exists>v' threshold. fail_on = Some v' \<and> level_value threshold = v' \<and>
                  level_rank threshold \<le> level_rank (overall_impact report))"
      using Some False uniq by auto
    ultimately show ?thesis by simp
  qed
qed

theorem exit_code_gate_witness:
  "main_exit_code (Some ''medium'') (new_report\<lparr>overall_impact := MEDIUM\<rparr>) = Inr 1
   \<and> main_exit_code (Some ''high'') (new_report\<lparr>overall_impact := MEDIUM\<rparr>) = Inr 0
   \<and> main_exit_code None (new_report\<lparr>overall_impact := CRITICAL\<rparr>) = Inr 0"
proof -
  have uniq: "level_value t = level_value t' \<Longrightarrow> t = t'" for t t'
    by (simp add: level_value_inj)
  have m: "level_value t = ''medium'' \<longleftrightarrow> t = MEDIUM" for t
    using uniq [of t MEDIUM] by auto
  have h: "level_value t = ''high'' \<longleftrightarrow> t = HIGH" for t
    using uniq [of t HIGH] by auto
  have a: "Some ''medium'' = None \<or> (\<exists>v \<in> set fail_on_choices. Some ''medium'' = Some v)"
    by (simp add: fail_on_choices_def)
  have b: "Some ''high'' = None \<or> (\<exists>v \<in> set fail_on_choices. Some ''high'' = Some v)"
    by (simp add: fail_on_choices_def)
  have c: "(None :: string option) = None \<or> (\<exists>v \<in> set fail_on_choices. None = Some v)"
    by simp
  from exit_code_gate [OF a, of "new_report\<lparr>overall_impact := MEDIUM\<rparr>"]
  have 1: "main_exit_code (Some ''medium'') (new_report\<lparr>overall_impact := MEDIUM\<rparr>) = Inr 1"
    by (auto simp: m)
  from exit_code_gate [OF b, of "new_report\<lparr>overall_impact := MEDIUM\<rparr>"]
  have 2: "main_exit_code (Some ''high'') (new_report\<lparr>overall_impact := MEDIUM\<rparr>) = Inr 0"
    by (auto simp: h)
  from exit_code_gate [OF c, of "new_report\<lparr>overall_impact := CRITICAL\<rparr>"]
  have 3: "main_exit_code None (new_report\<lparr>overall_impact := CRITICAL\<rparr>) = Inr 0"
    by auto
  from 1 2 3 show ?thesis by simp
qed

section \<open>Finalizing the report\<close>






section \<open>Summary counts\<close>

lemma count_levels_sum:
  "count_level CRITICAL xs + count_level HIGH xs + count_level MEDIUM xs + count_level LOW xs
     + count_level NONE xs = length xs"
proof (induction xs)
  case Nil
  show ?case by (simp add: count_level_def)
next
  case (Cons x xs)
  then show ?case by (cases "impact_level x") (simp_all add: count_level_def)
qed

lemma count_level_eq: "count_level l xs = length (filter (\<lambda>i. impact_level i = l) xs)"
  by (simp add: count_level_def)

lemma raise_impact_NONE: "raise_impact a NONE = a"
  by (simp add: raise_impact_def level_gt_rank)

text \<open>
  C10. In the summary of a finalized report, \<open>total_items\<close> is the number of
  evidences and each of the four counts is the number of evidences of that level; the
  four counts together with the number of evidences of level NONE make up the total.
  The value \<open>none\<close> is a valid severity of a rule; adding an evidence of level NONE
  appends it and leaves the overall severity as it was; and in the run of a rule set
  whose only rule has severity \<open>none\<close> over one changed file, the rule fires, the total
  is 1 and the four counts are 0.
\<close>

theorem summary_counts_exclude_none:
  "map_of (summary (generate_summary r)) ''total_items'' = Some (length (items r))
   \<and> map_of (summary (generate_summary r)) ''critical'' =
        Some (length (filter (\<lambda>i. impact_level i = CRITICAL) (items r)))
   \<and> map_of (summary (generate_summary r)) ''high'' =
        Some (length (filter (\<lambda>i. impact_level i = HIGH) (items r)))
   \<and> map_of (summary (generate_summary r)) ''medium'' =
        Some (length (filter (\<lambda>i. impact_level i = MEDIUM) (items r)))
   \<and> map_of (summary (generate_summary r)) ''low'' =
        Some (length (filter (\<lambda>i. impact_level i = LOW) (items r)))
   \<and> count_level CRITICAL (items r) + count_level HIGH (items r) + count_level MEDIUM (items r)
        + count_level LOW (items r) + length (filter (\<lambda>i. impact_level i = NONE) (items r))
      = length (items r)
   \<and> ImpactLevel_of ''none'' = Inr NONE
   \<and> items (add_item r (i\<lparr>impact_level := NONE\<rparr>)) = items r @ [i\<lparr>impact_level := NONE\<rparr>]
   \<and> overall_impact (add_item r (i\<lparr>impact_level := NONE\<rparr>)) = overall_impact r
   \<and> analyze no_matches none_config no_diff [''a.txt''] =
        Inr \<lparr>overall_impact = NONE,
             items = [\<lparr>category = ''note'', impact_level = NONE, file_path = ''a.txt'',
                       description = ''Note'', details = [], recommendation = None\<rparr>],
             summary = [(''total_items'', 1), (''critical'', 0), (''high'', 0),
                        (''medium'', 0), (''low'', 0)],
             changed_files = [''a.txt'']\<rparr>"
proof -
  have run: "analyze no_matches none_config no_diff [''a.txt''] =
      Inr \<lparr>overall_impact = NONE,
           items = [\<lparr>category = ''note'', impact_level = NONE, file_path = ''a.txt'',
                     description = ''Note'', details = [], recommendation = None\<rparr>],
           summary = [(''total_items'', 1), (''critical'', 0), (''high'', 0), (''medium'', 0), (''low'', 0)],
           changed_files = [''a.txt'']\<rparr>"
    by (simp add: analyze_def analyze_file_def analyze_rule_def none_config_def new_report_def
        in_github_dir_def startswith_def get_list_def ImpactLevel_of_def add_item_def
        raise_impact_def level_gt_def level_lt_def generate_summary_def count_level_def
        check_content_patterns_def Let_def)
  have sum: "count_level CRITICAL (items r) + count_level HIGH (items r) + count_level MEDIUM (items r)
        + count_level LOW (items r) + length (filter (\<lambda>i. impact_level i = NONE) (items r))
      = length (items r)"
    using count_levels_sum [of "items r"] by (simp add: count_level_eq)
  have keys: "map_of (summary (generate_summary r)) ''total_items'' = Some (length (items r))"
    "map_of (summary (generate_summary r)) ''critical'' =
        Some (length (filter (\<lambda>i. impact_level i = CRITICAL) (items r)))"
    "map_of (summary (generate_summary r)) ''high'' =
        Some (length (filter (\<lambda>i. impact_level i = HIGH) (items r)))"
    "map_of (summary (generate_summary r)) ''medium'' =
        Some (length (filter (\<lambda>i. impact_level i = MEDIUM) (items r)))"
    "map_of (summary (generate_summary r)) ''low'' =
        Some (length (filter (\<lambda>i. impact_level i = LOW) (items r)))"
    by (simp_all add: generate_summary_def count_level_eq)
  have none: "ImpactLevel_of ''none'' = Inr NONE"
    by (simp add: ImpactLevel_of_def)
  have add: "items (add_item r (i\<lparr>impact_level := NONE\<rparr>)) = items r @ [i\<lparr>impact_level := NONE\<rparr>]"
    "overall_impact (add_item r (i\<lparr>impact_level := NONE\<rparr>)) = overall_impact r"
    by (simp_all add: raise_impact_NONE)
  show ?thesis
    by (intro conjI keys sum none add run)
qed

section \<open>Skipping the notification\<close>

lemma skip_condition_skips:
  "skip_condition environ \<Longrightarrow> slack_main urlopen environ = (Exit 0, [])"
  by (auto simp: skip_condition_def pr_status_of_def slack_main_def SKIP_PR_STATUSES_def Let_def
           split: option.splits)

lemma not_skip_not_exit:
  "\<not> skip_condition environ \<Longrightarrow>
     (\<exists>k. slack_main urlopen environ = (Raised (KeyError k), []))
     \<or> (\<exists>req. req_url req = the (environ ''SC_ASSESSOR_SLACK_URL'') \<and>
              slack_main urlopen environ =
                ((case urlopen req of Some e \<Rightarrow> Raised e | None \<Rightarrow> Returned), [req]))"
  unfolding skip_condition_def pr_status_of_def slack_main_def SKIP_PR_STATUSES_def Let_def
  by (auto split: option.splits)

text \<open>
  C9. The notification script ends with exit code 0 and without any request exactly
  when the target URL is not set, or is empty, or the pull request status, stripped of
  white space, is \<open>draft\<close>. Whenever it sends, it sends one request, to the configured
  URL, and an exception raised by the delivery is the outcome of the run; when nothing
  is sent and the run does not exit with 0, a required environment variable is missing
  and the run ends with its \<^verbatim>\<open>KeyError\<close>.
\<close>

theorem slack_skip_exactly:
  "(slack_main urlopen environ = (Exit 0, [])
      \<longleftrightarrow> (environ ''SC_ASSESSOR_SLACK_URL'' = None
           \<or> environ ''SC_ASSESSOR_SLACK_URL'' = Some []
           \<or> pr_status_of environ = ''draft''))
   \<and> (fst (slack_main urlopen environ) = Exit 0 \<longrightarrow> snd (slack_main urlopen environ) = [])
   \<and> (\<forall>req \<in> set (snd (slack_main urlopen environ)).
         environ ''SC_ASSESSOR_SLACK_URL'' = Some (req_url req)
         \<and> snd (slack_main urlopen environ) = [req]
         \<and> (\<forall>e. urlopen req = Some e \<longrightarrow> fst (slack_main urlopen environ) = Raised e)
         \<and> (urlopen req = None \<longrightarrow> fst (slack_main urlopen environ) = Returned))
   \<and> (snd (slack_main urlopen environ) = [] \<longrightarrow>
         fst (slack_main urlopen environ) = Exit 0
         \<or> (\<exists>k \<in> {''GITHUB_REPOSITORY'', ''GITHUB_SERVER_URL'', ''PR_NUMBER'', ''OVERALL_IMPACT''}.
               environ k = None \<and> fst (slack_main urlopen environ) = Raised (KeyError k)))"
proof -
  let ?skip = "environ ''SC_ASSESSOR_SLACK_URL'' = None
           \<or> environ ''SC_ASSESSOR_SLACK_URL'' = Some []
           \<or> pr_status_of environ = ''draft''"
  have skip: "?skip \<longleftrightarrow> skip_condition environ"
    by (simp add: skip_condition_def)
  show ?thesis
  proof (cases "skip_condition environ")
    case True
    from skip_condition_skips [OF True, of urlopen] True skip show ?thesis by simp
  next
    case False
    then have ns: "\<not> ?skip" using skip by simp
    from ns show ?thesis
      unfolding pr_status_of_def slack_main_def SKIP_PR_STATUSES_def Let_def
      by (auto split: option.splits)
  qed
qed

theorem slack_skip_exactly_witness:
  "slack_main failing_urlopen draft_environ = (Exit 0, [])
   \<and> fst (slack_main failing_urlopen example_environ) = Raised (URLError ''unreachable'')
   \<and> map req_url (snd (slack_main failing_urlopen example_environ)) = [''https://hooks.example/T0'']"
proof -
  have d: "pr_status_of draft_environ = ''draft''"
    by (simp add: pr_status_of_def draft_environ_def strip_def is_space_def)
  have snd_ex: "map req_url (snd (slack_main failing_urlopen example_environ)) = [''https://hooks.example/T0'']"
    by (simp add: slack_main_def example_environ_def pr_status_of_def strip_def is_space_def
        SKIP_PR_STATUSES_def failing_urlopen_def Let_def)
  then obtain req where req: "snd (slack_main failing_urlopen example_environ) = [req]"
    by auto
  note th = slack_skip_exactly [of failing_urlopen draft_environ]
  note th2 = slack_skip_exactly [of failing_urlopen example_environ]
  from th d have 1: "slack_main failing_urlopen draft_environ = (Exit 0, [])" by blast
  from th2 req have "\<forall>e. failing_urlopen req = Some e \<longrightarrow>
      fst (slack_main failing_urlopen example_environ) = Raised e"
    by simp
  then have 2: "fst (slack_main failing_urlopen example_environ) = Raised (URLError ''unreachable'')"
    by (simp add: failing_urlopen_def)
  from 1 2 snd_ex show ?thesis by simp
qed

section \<open>The excluded directory\<close>

lemma analyze_rule_items:
  "analyze_rule f p d r rule = Inr r' \<Longrightarrow>
     r' = r \<or> (\<exists>i. r' = add_item r i \<and> file_path i = p \<and> category i = fst rule)"
  by (cases rule)
     (auto simp: analyze_rule_def Let_def split: option.splits sum.splits if_splits)

lemma analyze_rule_changed_files:
  "analyze_rule f p d (r\<lparr>changed_files := cf\<rparr>) rule =
     map_sum id (\<lambda>r'. r'\<lparr>changed_files := cf\<rparr>) (analyze_rule f p d r rule)"
  by (cases rule)
     (auto simp: analyze_rule_def Let_def add_item_def split: option.splits sum.splits)

lemma analyze_rules_changed_files:
  "analyze_rules f p d (r\<lparr>changed_files := cf\<rparr>) rules =
     map_sum id (\<lambda>r'. r'\<lparr>changed_files := cf\<rparr>) (analyze_rules f p d r rules)"
proof (induction rules arbitrary: r)
  case Nil
  show ?case by simp
next
  case (Cons rule rules)
  show ?case
    by (cases "analyze_rule f p d r rule") (simp_all add: analyze_rule_changed_files Cons.IH)
qed

lemma analyze_files_changed_files:
  "analyze_files f c d (r\<lparr>changed_files := cf\<rparr>) files =
     map_sum id (\<lambda>r'. r'\<lparr>changed_files := cf\<rparr>) (analyze_files f c d r files)"
proof (induction files arbitrary: r)
  case Nil
  show ?case by simp
next
  case (Cons p ps)
  show ?case
    by (cases "analyze_rules f p (d p) r c")
       (simp_all add: analyze_file_def analyze_rules_changed_files Cons.IH)
qed

lemma analyze_rules_paths:
  "analyze_rules f p d r rules = Inr r' \<Longrightarrow>
     \<exists>new. items r' = items r @ new \<and> (\<forall>i \<in> set new. file_path i = p)"
proof (induction rules arbitrary: r)
  case Nil
  then show ?case by simp
next
  case (Cons rule rules)
  from Cons.prems obtain r1 where r1: "analyze_rule f p d r rule = Inr r1"
    "analyze_rules f p d r1 rules = Inr r'"
    by (auto split: sum.splits)
  from analyze_rule_items [OF r1(1)]
  obtain n1 where n1: "items r1 = items r @ n1" "\<forall>i \<in> set n1. file_path i = p"
    by auto
  from Cons.IH [OF r1(2)] obtain n2 where "items r' = items r1 @ n2" "\<forall>i \<in> set n2. file_path i = p"
    by blast
  with n1 have "items r' = items r @ (n1 @ n2) \<and> (\<forall>i \<in> set (n1 @ n2). file_path i = p)"
    by auto
  then show ?case by blast
qed

lemma analyze_files_paths:
  "analyze_files f c d r files = Inr r' \<Longrightarrow>
     \<exists>new. items r' = items r @ new \<and>
        (\<forall>i \<in> set new. file_path i \<in> set files \<and> \<not> in_github_dir (file_path i))"
proof (induction files arbitrary: r)
  case Nil
  then show ?case by simp
next
  case (Cons p ps)
  show ?case
  proof (cases "in_github_dir p")
    case True
    with Cons.prems have "analyze_files f c d r ps = Inr r'" by simp
    from Cons.IH [OF this] show ?thesis by auto
  next
    case False
    with Cons.prems obtain r1 where r1: "analyze_rules f p (d p) r c = Inr r1"
      "analyze_files f c d r1 ps = Inr r'"
      by (auto simp: analyze_file_def split: sum.splits)
    from analyze_rules_paths [OF r1(1)]
    obtain n1 where n1: "items r1 = items r @ n1" "\<forall>i \<in> set n1. file_path i = p"
      by blast
    from Cons.IH [OF r1(2)] obtain n2 where n2: "items r' = items r1 @ n2"
      "\<forall>i \<in> set n2. file_path i \<in> set ps \<and> \<not> in_github_dir (file_path i)"
      by blast
    from n1 n2 False
    have "items r' = items r @ (n1 @ n2) \<and>
          (\<forall>i \<in> set (n1 @ n2). file_path i \<in> set (p # ps) \<and> \<not> in_github_dir (file_path i))"
      by auto
    then show ?thesis by blast
  qed
qed

lemma analyze_files_skip:
  "in_github_dir p \<Longrightarrow>
     analyze_files f c d r (xs @ p # ys) = analyze_files f c d r (xs @ ys)"
proof (induction xs arbitrary: r)
  case Nil
  then show ?case by simp
next
  case (Cons x xs)
  then show ?case by (simp split: sum.splits)
qed

lemma findings_simps [simp]:
  "findings (generate_summary r) = findings r"
  "findings (r\<lparr>changed_files := cf\<rparr>) = findings r"
  by (simp_all add: findings_def generate_summary_def)

lemma analyze_findings:
  "map_sum id findings (analyze f c d files) =
     map_sum id findings (analyze_files f c d new_report files)"
proof (cases "files = []")
  case True
  then show ?thesis by (simp add: analyze_def)
next
  case False
  then show ?thesis
    by (cases "analyze_files f c d new_report files")
       (simp_all add: analyze_def analyze_files_changed_files)
qed

text \<open>
  C6. A changed file whose path starts with \<^verbatim>\<open>.github/\<close> changes nothing in what
  the analysis finds: the overall severity and the evidences are those of the run
  without the file, no evidence of the report names the file, and the counts of the
  report are the tallies of those evidences.
\<close>

theorem github_files_excluded:
  assumes "startswith p ''.github/''"
  shows "map_sum id findings (analyze f c d (xs @ p # ys)) =
           map_sum id findings (analyze f c d (xs @ ys))
         \<and> (\<forall>r. analyze f c d (xs @ p # ys) = Inr r \<longrightarrow>
               (\<forall>i \<in> set (items r). file_path i \<noteq> p)
               \<and> summary r = summary (generate_summary r))"
proof -
  from assms have gh: "in_github_dir p" by (simp add: in_github_dir_def)
  have 1: "map_sum id findings (analyze f c d (xs @ p # ys)) =
           map_sum id findings (analyze f c d (xs @ ys))"
    by (simp only: analyze_findings analyze_files_skip [OF gh])
  have 2: "(\<forall>i \<in> set (items r). file_path i \<noteq> p) \<and> summary r = summary (generate_summary r)"
    if r: "analyze f c d (xs @ p # ys) = Inr r" for r
  proof -
    let ?r0 = "new_report\<lparr>changed_files := xs @ p # ys\<rparr>"
    from r obtain r1 where r1: "analyze_files f c d ?r0 (xs @ p # ys) = Inr r1"
      "r = generate_summary r1"
      by (auto simp: analyze_def split: sum.splits)
    from analyze_files_paths [OF r1(1)] gh
    have "\<forall>i \<in> set (items r1). file_path i \<noteq> p"
      by (auto simp: new_report_def)
    with r1(2) show ?thesis by (simp add: generate_summary_def)
  qed
  from 1 2 show ?thesis by blast
qed

theorem github_files_excluded_witness:
  "startswith ''.github/workflows/ci.yml'' ''.github/''
   \<and> (\<exists>r. analyze_file no_matches catch_all_config no_diff new_report ''.github/workflows/ci.yml'' = Inr r
          \<and> length (items r) = 1)
   \<and> map_sum id findings (analyze no_matches catch_all_config no_diff [''.github/workflows/ci.yml''])
       = Inr (NONE, [])"
proof -
  have h: "startswith ''.github/workflows/ci.yml'' ''.github/''"
    by (simp add: startswith_def)
  have direct: "\<exists>r. analyze_file no_matches catch_all_config no_diff new_report ''.github/workflows/ci.yml'' = Inr r
          \<and> length (items r) = 1"
    by (simp add: analyze_file_def analyze_rule_def catch_all_config_def get_list_def Let_def
        ImpactLevel_of_def new_report_def check_content_patterns_def)
  have empty: "map_sum id findings (analyze no_matches catch_all_config no_diff []) = Inr (NONE, [])"
    by (simp add: analyze_def findings_def new_report_def)
  from github_files_excluded [OF h, of no_matches catch_all_config no_diff "[]" "[]"] empty
  have "map_sum id findings (analyze no_matches catch_all_config no_diff [''.github/workflows/ci.yml''])
       = Inr (NONE, [])"
    by simp
  with h direct show ?thesis by blast
qed

section \<open>Decimal numbers\<close>



lemma str_nat_nonempty: "str_nat n \<noteq> []"
  by (subst str_nat.simps) simp









lemma first_seen_filter_notin:
  "x \<in> seen \<Longrightarrow> filter (\<lambda>m. m \<notin> seen) (removeAll x xs) = filter (\<lambda>m. m \<notin> seen) xs"
  by (induction xs) auto




lemma is_added_not_hunk: "is_added_line l \<Longrightarrow> hunk_match l = None"
  by (cases l) (auto simp: is_added_line_def startswith_def hunk_match_def strip_prefix_def)

lemma startswith_dashes: "startswith l ''---'' \<Longrightarrow> startswith l ''-''"
  by (cases l) (auto simp: startswith_def)

lemma scan_line_hunk:
  "hunk_match l = Some c \<Longrightarrow> scan_line f ps (acc, n) l = (acc, c)"
  by (simp add: scan_line_def)

lemma scan_line_added:
  "hunk_match l = None \<Longrightarrow> is_added_line l \<Longrightarrow>
     scan_line f ps (acc, n) l = (acc @ line_matches f ps (drop 1 l) n, n + 1)"
  by (simp add: scan_line_def)

lemma scan_line_other:
  "hunk_match l = None \<Longrightarrow> \<not> is_added_line l \<Longrightarrow>
     scan_line f ps (acc, n) l =
       (acc, if startswith l ''-'' \<or> startswith l [backslash] then n else n + 1)"
  using startswith_dashes [of l] by (auto simp: scan_line_def)

lemma fold_scan_line:
  "fst (foldl (scan_line f ps) (acc, n) ls) =
     acc @ concat (map (\<lambda>(t, k). line_matches f ps t k) (mapper_lines n ls))"
proof (induction ls arbitrary: acc n)
  case Nil
  show ?case by simp
next
  case (Cons l ls)
  show ?case
  proof (cases "hunk_match l")
    case (Some c)
    then show ?thesis by (simp add: scan_line_hunk Cons.IH)
  next
    case None
    show ?thesis
    proof (cases "is_added_line l")
      case True
      with None show ?thesis by (simp add: scan_line_added Cons.IH)
    next
      case False
      with None show ?thesis by (simp add: scan_line_other Cons.IH)
    qed
  qed
qed

lemma check_content_patterns_mapper:
  "check_content_patterns f diff_content ps =
     concat (map (\<lambda>(t, k). line_matches f ps t k) (mapper_lines 0 (split_on newline diff_content)))"
  by (simp add: check_content_patterns_def fold_scan_line)

lemma diff_line_mapper_lines:
  "diff_line_mapper diff_content = mapper_lines 0 (split_on newline diff_content)"
proof -
  have "concat (map (\<lambda>(t, k). line_matches (\<lambda>p l. [l]) [[]] t k) xs) = xs" for xs :: "(string \<times> nat) list"
    by (induction xs) (auto simp: line_matches_def)
  then show ?thesis
    by (simp add: diff_line_mapper_def check_content_patterns_mapper)
qed

lemma mapper_lines_texts: "map fst (mapper_lines n ls) = map (drop 1) (filter is_added_line ls)"
proof (induction ls arbitrary: n)
  case Nil
  show ?case by simp
next
  case (Cons l ls)
  show ?case
  proof (cases "hunk_match l")
    case (Some c)
    with is_added_not_hunk [of l] have "\<not> is_added_line l" by auto
    with Some show ?thesis by (simp add: Cons.IH)
  next
    case None
    then show ?thesis by (simp add: Cons.IH)
  qed
qed

lemma line_matches_empty: "line_matches f ps t k = [] \<longleftrightarrow> (\<forall>p \<in> set ps. f p t = [])"
  by (auto simp: line_matches_def)

lemma check_content_patterns_empty:
  "check_content_patterns f diff_content ps = [] \<longleftrightarrow>
     (\<forall>p \<in> set ps. \<forall>t \<in> set (added_lines diff_content). f p t = [])"
proof -
  let ?m = "mapper_lines 0 (split_on newline diff_content)"
  have "set (added_lines diff_content) = fst ` set ?m"
    using mapper_lines_texts [of 0 "split_on newline diff_content"]
    by (metis added_lines_def set_map)
  then show ?thesis
    by (fastforce simp: check_content_patterns_mapper line_matches_empty)
qed





lemma add_item_neq: "add_item r item \<noteq> r"
proof
  assume "add_item r item = r"
  then have "items (add_item r item) = items r" by simp
  then show False by (simp add: add_item_def)
qed

section \<open>Glob patterns\<close>

lemma translate_fuel_literal:
  "\<forall>c \<in> set pre. \<not> glob_special c \<Longrightarrow> length pre \<le> n \<Longrightarrow>
     translate_fuel n (pre @ rest) = map Lit pre @ translate_fuel (n - length pre) rest"
proof (induction pre arbitrary: n)
  case Nil
  show ?case by simp
next
  case (Cons c pre)
  from Cons.prems obtain m where n: "n = Suc m" by (cases n) auto
  from Cons.prems have c: "c \<noteq> CHR ''*''" "c \<noteq> CHR ''?''" "c \<noteq> CHR ''[''"
    by (auto simp: glob_special_def)
  from Cons.prems n have "translate_fuel m (pre @ rest) = map Lit pre @ translate_fuel (m - length pre) rest"
    by (intro Cons.IH) auto
  with n c show ?case by simp
qed

lemma translate_fuel_literal_only:
  "\<forall>c \<in> set suf. \<not> glob_special c \<Longrightarrow> length suf \<le> n \<Longrightarrow> translate_fuel n suf = map Lit suf"
proof -
  assume a: "\<forall>c \<in> set suf. \<not> glob_special c" "length suf \<le> n"
  have "translate_fuel k [] = []" for k by (cases k) simp_all
  with translate_fuel_literal [OF a, of "[]"] show ?thesis by simp
qed


lemma glob_match_lits: "glob_match (map Lit pre @ ts) s \<longleftrightarrow> (\<exists>r. s = pre @ r \<and> glob_match ts r)"
proof (induction pre arbitrary: s)
  case Nil
  show ?case by simp
next
  case (Cons c pre)
  show ?case by (cases s) (auto simp: Cons.IH)
qed

lemma glob_match_lits_only: "glob_match (map Lit suf) s \<longleftrightarrow> s = suf"
  using glob_match_lits [of suf "[]" s] by auto



lemma fnmatch_literal:
  "\<forall>c \<in> set lit. \<not> glob_special c \<Longrightarrow> fnmatch name lit \<longleftrightarrow> name = lit"
  by (simp add: fnmatch_def translate_def translate_fuel_literal_only glob_match_lits_only)

lemma deploy_literals:
  "\<forall>c \<in> set ''deploy/''. \<not> glob_special c" "\<forall>c \<in> set ''.yml''. \<not> glob_special c"
  "\<forall>c \<in> set ''deploy/clowdapp.yml''. \<not> glob_special c"
  by (simp_all add: glob_special_def)


section \<open>When a rule fires\<close>

lemma analyze_rule_cases:
  "analyze_rule f path diff_content r (name, cfg) =
     (if spec_rule_fires f path diff_content cfg then
        (case cfg_impact_level cfg of
           None \<Rightarrow> Inl (KeyError ''impact_level'')
         | Some v \<Rightarrow>
        (case ImpactLevel_of v of
           Inl e \<Rightarrow> Inl e
         | Inr level \<Rightarrow>
        (case cfg_description cfg of
           None \<Rightarrow> Inl (KeyError ''description'')
         | Some dsc \<Rightarrow>
             Inr (add_item r
                    \<lparr>category = name, impact_level = level, file_path = path, description = dsc,
                     details =
                       (if get_list (cfg_content_patterns cfg) \<noteq> []
                        then dedup_details path
                               (check_content_patterns f diff_content
                                  (get_list (cfg_content_patterns cfg))) {} []
                        else []),
                     recommendation = cfg_recommendation cfg\<rparr>))))
      else Inr r)"
  by (auto simp: analyze_rule_def Let_def spec_rule_fires_def check_path_patterns_def
      list_ex_iff check_content_patterns_empty split: option.splits sum.splits)

lemma analyze_rule_returns:
  assumes "analyze_rule f path diff_content r (name, cfg) = Inr r'"
  shows "if spec_rule_fires f path diff_content cfg
         then \<exists>item. r' = add_item r item \<and> item_of_rule path item (name, cfg)
         else r' = r"
  using assms unfolding analyze_rule_cases
  by (auto simp: item_of_rule_def split: option.splits sum.splits if_splits)

lemma analyze_rules_returns:
  assumes "analyze_rules f path diff_content r config = Inr r'"
  shows "\<exists>new. r' = add_items r new
           \<and> list_all2 (item_of_rule path) new
                (filter (\<lambda>rule. spec_rule_fires f path diff_content (snd rule)) config)"
  using assms
proof (induction config arbitrary: r)
  case Nil
  then have "r' = add_items r []" by (simp add: add_items_def)
  then show ?case by (intro exI [of _ "[]"]) simp
next
  case (Cons rule rules)
  obtain name cfg where rule: "rule = (name, cfg)" by (cases rule)
  from Cons.prems rule obtain r1 where r1: "analyze_rule f path diff_content r (name, cfg) = Inr r1"
    "analyze_rules f path diff_content r1 rules = Inr r'"
    by (auto split: sum.splits)
  from Cons.IH [OF r1(2)] obtain new where new: "r' = add_items r1 new"
    "list_all2 (item_of_rule path) new
       (filter (\<lambda>rule. spec_rule_fires f path diff_content (snd rule)) rules)"
    by blast
  show ?case
  proof (cases "spec_rule_fires f path diff_content cfg")
    case True
    with analyze_rule_returns [OF r1(1)] obtain item where item: "r1 = add_item r item"
      "item_of_rule path item (name, cfg)"
      by auto
    from new(1) item(1) have "r' = add_items r (item # new)" by (simp add: add_items_def)
    moreover from True new(2) item(2) rule
    have "list_all2 (item_of_rule path) (item # new)
       (filter (\<lambda>rule. spec_rule_fires f path diff_content (snd rule)) (rule # rules))"
      by simp
    ultimately show ?thesis by blast
  next
    case False
    with analyze_rule_returns [OF r1(1)] have "r1 = r" by simp
    with new(1) have "r' = add_items r new" by simp
    moreover from False new(2) rule
    have "list_all2 (item_of_rule path) new
       (filter (\<lambda>rule. spec_rule_fires f path diff_content (snd rule)) (rule # rules))"
      by simp
    ultimately show ?thesis by blast
  qed
qed

lemma added_line_iff:
  "is_added_line l \<longleftrightarrow> (\<exists>t. l = CHR ''+'' # t \<and> take 2 t \<noteq> ''++'')"
  by (cases l) (auto simp: is_added_line_def startswith_def numeral_2_eq_2)

lemma in_added_lines:
  "t \<in> set (added_lines diff_content) \<longleftrightarrow>
     (CHR ''+'' # t \<in> set (split_on newline diff_content) \<and> take 2 t \<noteq> ''++'')"
proof
  assume "t \<in> set (added_lines diff_content)"
  then obtain l where l: "l \<in> set (split_on newline diff_content)" "is_added_line l" "t = drop 1 l"
    by (auto simp: added_lines_def)
  from l(2) obtain u where "l = CHR ''+'' # u" "take 2 u \<noteq> ''++''"
    unfolding added_line_iff by blast
  with l show "CHR ''+'' # t \<in> set (split_on newline diff_content) \<and> take 2 t \<noteq> ''++''"
    by simp
next
  assume a: "CHR ''+'' # t \<in> set (split_on newline diff_content) \<and> take 2 t \<noteq> ''++''"
  then have "is_added_line (CHR ''+'' # t)" unfolding added_line_iff by blast
  with a have "drop 1 (CHR ''+'' # t) \<in> set (added_lines diff_content)"
    unfolding added_lines_def by (intro image_eqI [where x = "CHR ''+'' # t"] | simp)+
  then show "t \<in> set (added_lines diff_content)" by simp
qed

text \<open>
  C4. Whenever the analysis of a rule on a file returns, the rule has added an evidence
  exactly when (it declares no path patterns, or the path matches one of them) and (it
  declares no content patterns, or one of them has a match in an added line of the
  diff: a line that starts with one \<^verbatim>\<open>+\<close> and not with three); an added evidence
  has the name of the rule and the path of the file, and no details when the rule has no
  content patterns. So a rule whose path matches and whose content patterns find nothing
  adds nothing. For a rule set, the evidences added for a file are those of the rules
  that fire, in the order of the rules. Here \<open>f p l\<close> stands for
  \<^verbatim>\<open>re.findall(p, l, re.IGNORECASE)\<close>, for patterns that compile.
\<close>

theorem rule_fires_iff:
  "(\<forall>r'. analyze_rule f path diff_content r (name, cfg) = Inr r' \<longrightarrow>
       ((r' \<noteq> r) \<longleftrightarrow>
          (get_list (cfg_paths cfg) = []
             \<or> (\<exists>p \<in> set (get_list (cfg_paths cfg)). fnmatch path p))
          \<and> (get_list (cfg_content_patterns cfg) = []
               \<or> (\<exists>cp \<in> set (get_list (cfg_content_patterns cfg)).
                     \<exists>t. CHR ''+'' # t \<in> set (split_on newline diff_content)
                          \<and> take 2 t \<noteq> ''++'' \<and> f cp t \<noteq> [])))
       \<and> (r' \<noteq> r \<longrightarrow>
             (\<exists>item. r' = add_item r item \<and> category item = name \<and> file_path item = path
                \<and> (get_list (cfg_content_patterns cfg) = [] \<longrightarrow> details item = []))))
   \<and> (\<forall>r'. analyze_file f config d r path = Inr r' \<longrightarrow>
         (\<exists>new. r' = add_items r new
            \<and> list_all2 (item_of_rule path) new
                 (filter (\<lambda>rule. spec_rule_fires f path (d path) (snd rule)) config)))"
proof -
  have fires: "spec_rule_fires f path diff_content cfg \<longleftrightarrow>
          (get_list (cfg_paths cfg) = []
             \<or> (\<exists>p \<in> set (get_list (cfg_paths cfg)). fnmatch path p))
          \<and> (get_list (cfg_content_patterns cfg) = []
               \<or> (\<exists>cp \<in> set (get_list (cfg_content_patterns cfg)).
                     \<exists>t. CHR ''+'' # t \<in> set (split_on newline diff_content)
                          \<and> take 2 t \<noteq> ''++'' \<and> f cp t \<noteq> []))"
    unfolding spec_rule_fires_def by (simp add: in_added_lines Bex_def)
  have 1: "((r' \<noteq> r) \<longleftrightarrow> spec_rule_fires f path diff_content cfg)
       \<and> (r' \<noteq> r \<longrightarrow>
             (\<exists>item. r' = add_item r item \<and> category item = name \<and> file_path item = path
                \<and> (get_list (cfg_content_patterns cfg) = [] \<longrightarrow> details item = [])))"
    if "analyze_rule f path diff_content r (name, cfg) = Inr r'" for r'
  proof (cases "spec_rule_fires f path diff_content cfg")
    case True
    with analyze_rule_returns [OF that] obtain item where item: "r' = add_item r item"
      "item_of_rule path item (name, cfg)"
      by auto
    from item(1) have "r' \<noteq> r" by (simp add: add_item_neq)
    moreover from item have "\<exists>item. r' = add_item r item \<and> category item = name
        \<and> file_path item = path
        \<and> (get_list (cfg_content_patterns cfg) = [] \<longrightarrow> details item = [])"
      unfolding item_of_rule_def by (intro exI [of _ item]) simp
    ultimately show ?thesis using True by blast
  next
    case False
    with analyze_rule_returns [OF that] have "r' = r" by simp
    with False show ?thesis by blast
  qed
  have 2: "\<exists>new. r' = add_items r new
            \<and> list_all2 (item_of_rule path) new
                 (filter (\<lambda>rule. spec_rule_fires f path (d path) (snd rule)) config)"
    if "analyze_file f config d r path = Inr r'" for r'
    using analyze_rules_returns [of f path "d path" r config r'] that
    by (simp add: analyze_file_def)
  from 1 2 show ?thesis unfolding fires by blast
qed

lemma example_added: "added_lines example_diff = [''kessel: on'']"
  by (simp add: added_lines_def example_diff_def newline_def is_added_line_def startswith_def)

lemma example_fires:
  "spec_rule_fires prefix_findall ''deploy/clowdapp.yml'' example_diff clowdapp_rule"
  "\<not> spec_rule_fires prefix_findall ''deploy/clowdapp.yml'' example_diff rds_rule"
  "spec_rule_fires prefix_findall ''deploy/clowdapp.yml'' example_diff kessel_rule"
proof -
  have p1: "fnmatch ''deploy/clowdapp.yml'' ''deploy/clowdapp.yml''"
    by (simp add: fnmatch_literal [OF deploy_literals(3)])
  have "\<exists>p \<in> set [''deploy/clowdapp.yml'', ''deploy/*.yml'']. fnmatch ''deploy/clowdapp.yml'' p"
    by (rule bexI [of _ "''deploy/clowdapp.yml''"], rule p1) simp
  then show "spec_rule_fires prefix_findall ''deploy/clowdapp.yml'' example_diff clowdapp_rule"
    unfolding spec_rule_fires_def clowdapp_rule_def by (simp only: get_list_def) simp
  show "\<not> spec_rule_fires prefix_findall ''deploy/clowdapp.yml'' example_diff rds_rule"
    by (simp add: spec_rule_fires_def rds_rule_def get_list_def example_added prefix_findall_def
        startswith_def)
  show "spec_rule_fires prefix_findall ''deploy/clowdapp.yml'' example_diff kessel_rule"
    by (simp add: spec_rule_fires_def kessel_rule_def get_list_def example_added prefix_findall_def
        startswith_def)
qed

lemma example_fired:
  "filter (\<lambda>rule. spec_rule_fires prefix_findall ''deploy/clowdapp.yml''
             (example_get_file_diff ''deploy/clowdapp.yml'') (snd rule)) example_config =
     [(''clowdapp_config'', clowdapp_rule), (''kessel_integration'', kessel_rule)]"
  by (simp add: example_config_def example_get_file_diff_def example_fires)

lemma example_returns:
  "\<exists>r'. analyze_file prefix_findall example_config example_get_file_diff new_report
            ''deploy/clowdapp.yml'' = Inr r'"
proof -
  have l: "cfg_impact_level clowdapp_rule = Some ''high''" "cfg_description clowdapp_rule = Some ''ClowdApp configuration change''"
    "cfg_impact_level kessel_rule = Some ''critical''" "cfg_description kessel_rule = Some ''Kessel integration change''"
    "ImpactLevel_of ''high'' = Inr HIGH" "ImpactLevel_of ''critical'' = Inr CRITICAL"
    by (simp_all add: clowdapp_rule_def kessel_rule_def ImpactLevel_of_def)
  show ?thesis
    unfolding analyze_file_def example_config_def example_get_file_diff_def
    by (simp only: analyze_rules.simps analyze_rule_cases example_fires if_True if_False l
        option.case sum.case) (rule exI, rule refl)
qed

lemma list_all2_two:
  "list_all2 P new [a, b] \<Longrightarrow> \<exists>i1 i2. new = [i1, i2] \<and> P i1 a \<and> P i2 b"
  by (auto simp: list_all2_Cons2)

theorem rule_fires_iff_witness:
  "\<exists>new. analyze_file prefix_findall example_config example_get_file_diff new_report
            ''deploy/clowdapp.yml'' = Inr (add_items new_report new)
      \<and> map category new = [''clowdapp_config'', ''kessel_integration'']
      \<and> map file_path new = [''deploy/clowdapp.yml'', ''deploy/clowdapp.yml'']
      \<and> details (hd new) = []"
proof -
  from example_returns obtain r' where
    r': "analyze_file prefix_findall example_config example_get_file_diff new_report
            ''deploy/clowdapp.yml'' = Inr r'"
    by (rule exE)
  have "\<exists>new. r' = add_items new_report new \<and>
      list_all2 (item_of_rule ''deploy/clowdapp.yml'') new
        [(''clowdapp_config'', clowdapp_rule), (''kessel_integration'', kessel_rule)]"
    using rule_fires_iff [where f = prefix_findall and path = "''deploy/clowdapp.yml''"
        and r = new_report and config = example_config and d = example_get_file_diff,
        THEN conjunct2, rule_format, OF r']
    unfolding example_fired .
  then obtain new where new: "r' = add_items new_report new"
    and l: "list_all2 (item_of_rule ''deploy/clowdapp.yml'') new
       [(''clowdapp_config'', clowdapp_rule), (''kessel_integration'', kessel_rule)]"
    by (elim exE conjE)
  from list_all2_two [OF l] obtain i1 i2 where its: "new = [i1, i2]"
    and i1: "item_of_rule ''deploy/clowdapp.yml'' i1 (''clowdapp_config'', clowdapp_rule)"
    and i2: "item_of_rule ''deploy/clowdapp.yml'' i2 (''kessel_integration'', kessel_rule)"
    by (elim exE conjE)
  have g: "get_list (cfg_content_patterns clowdapp_rule) = []"
    by (simp add: clowdapp_rule_def get_list_def)
  from i1 g have c1: "category i1 = ''clowdapp_config''" "file_path i1 = ''deploy/clowdapp.yml''"
    "details i1 = []"
    by (simp_all add: item_of_rule_def)
  from i2 have c2: "category i2 = ''kessel_integration''" "file_path i2 = ''deploy/clowdapp.yml''"
    by (simp_all add: item_of_rule_def)
  have "analyze_file prefix_findall example_config example_get_file_diff new_report
            ''deploy/clowdapp.yml'' = Inr (add_items new_report [i1, i2])
      \<and> map category [i1, i2] = [''clowdapp_config'', ''kessel_integration'']
      \<and> map file_path [i1, i2] = [''deploy/clowdapp.yml'', ''deploy/clowdapp.yml'']
      \<and> details (hd [i1, i2]) = []"
    unfolding r' new its by (simp add: c1 c2)
  then show ?thesis by (rule exI)
qed

section \<open>The star of a path pattern\<close>






end
